theory Spec2Isabelle
  imports Complex_Main "HOL-Library.AList"
begin

section \<open>Values handled by the scripts\<close>

text \<open>
  \<^verbatim>\<open>json.load\<close> and \<^verbatim>\<open>ndjson.load\<close> produce Python values: \<^verbatim>\<open>None\<close>, booleans,
  integers, floats, strings, lists and dictionaries with string keys. A dictionary
  keeps its insertion order, so it is an association list; the parsers never produce
  a repeated key. A float is represented by its real value (NaN and the infinities,
  which Python's parser also accepts, are equal to no number and are left out).
\<close>

datatype json =
    JNull
  | JBool bool
  | JInt int
  | JFloat real
  | JStr string
  | JList "json list"
  | JObj "(string \<times> json) list"

type_synonym pydict = "(string \<times> json) list"

text \<open>The exceptions the scripts can meet.\<close>

datatype py_error =
    KeyError
  | TypeError
  | ValueError
  | FileNotFoundError
  | JSONDecodeError
  | EmptyDataError
  | ParserError

subsection \<open>Dictionary operations\<close>

definition dict_contains :: "pydict \<Rightarrow> string \<Rightarrow> bool" where
  \<comment> \<open>\<^verbatim>\<open>key in d\<close>\<close>
  "dict_contains d key = (map_of d key \<noteq> None)"

definition dict_setitem :: "pydict \<Rightarrow> string \<Rightarrow> json \<Rightarrow> pydict" where
  \<comment> \<open>\<^verbatim>\<open>d[key] = value\<close>: an existing key keeps its position, a new key goes last\<close>
  "dict_setitem d key v = AList.update key v d"

definition dict_delitem :: "pydict \<Rightarrow> string \<Rightarrow> py_error + pydict" where
  \<comment> \<open>\<^verbatim>\<open>del d[key]\<close>\<close>
  "dict_delitem d key =
     (if dict_contains d key then Inr (AList.delete key d) else Inl KeyError)"

definition dict_keys :: "pydict \<Rightarrow> string list" where
  "dict_keys d = map fst d"

subsection \<open>Operations on arbitrary values\<close>

fun starts_with :: "string \<Rightarrow> string \<Rightarrow> bool" where
  "starts_with [] s = True"
| "starts_with (c # cs) [] = False"
| "starts_with (c # cs) (d # ds) = (c = d \<and> starts_with cs ds)"

fun str_contains :: "string \<Rightarrow> string \<Rightarrow> bool" where
  \<comment> \<open>\<^verbatim>\<open>sub in s\<close> on two strings: \<open>sub\<close> occurs in \<open>s\<close> as a contiguous piece\<close>
  "str_contains sub [] = (sub = [])"
| "str_contains sub (c # cs) = (starts_with sub (c # cs) \<or> str_contains sub cs)"

fun py_contains :: "string \<Rightarrow> json \<Rightarrow> py_error + bool" where
  \<comment> \<open>\<^verbatim>\<open>key in x\<close> for a string \<open>key\<close>\<close>
  "py_contains key (JObj d) = Inr (dict_contains d key)"
| "py_contains key (JList xs) = Inr (JStr key \<in> set xs)"
| "py_contains key (JStr s) = Inr (str_contains key s)"
| "py_contains key JNull = Inl TypeError"
| "py_contains key (JBool b) = Inl TypeError"
| "py_contains key (JInt i) = Inl TypeError"
| "py_contains key (JFloat r) = Inl TypeError"

fun py_getitem :: "json \<Rightarrow> string \<Rightarrow> py_error + json" where
  \<comment> \<open>\<^verbatim>\<open>x[key]\<close> for a string \<open>key\<close>: only a dictionary accepts a string subscript\<close>
  "py_getitem (JObj d) key = (case map_of d key of None \<Rightarrow> Inl KeyError | Some v \<Rightarrow> Inr v)"
| "py_getitem (JList xs) key = Inl TypeError"
| "py_getitem (JStr s) key = Inl TypeError"
| "py_getitem JNull key = Inl TypeError"
| "py_getitem (JBool b) key = Inl TypeError"
| "py_getitem (JInt i) key = Inl TypeError"
| "py_getitem (JFloat r) key = Inl TypeError"

fun py_len :: "json \<Rightarrow> py_error + nat" where
  "py_len (JObj d) = Inr (length d)"
| "py_len (JList xs) = Inr (length xs)"
| "py_len (JStr s) = Inr (length s)"
| "py_len JNull = Inl TypeError"
| "py_len (JBool b) = Inl TypeError"
| "py_len (JInt i) = Inl TypeError"
| "py_len (JFloat r) = Inl TypeError"

fun py_iter :: "json \<Rightarrow> py_error + json list" where
  \<comment> \<open>the values a \<^verbatim>\<open>for\<close> loop sees: elements, characters, or keys\<close>
  "py_iter (JList xs) = Inr xs"
| "py_iter (JStr s) = Inr (map (\<lambda>c. JStr [c]) s)"
| "py_iter (JObj d) = Inr (map (\<lambda>kv. JStr (fst kv)) d)"
| "py_iter JNull = Inl TypeError"
| "py_iter (JBool b) = Inl TypeError"
| "py_iter (JInt i) = Inl TypeError"
| "py_iter (JFloat r) = Inl TypeError"

fun py_eq_True :: "json \<Rightarrow> bool" where
  \<comment> \<open>\<^verbatim>\<open>x == True\<close>: Python's \<^verbatim>\<open>True\<close> is the number one\<close>
  "py_eq_True (JBool b) = b"
| "py_eq_True (JInt i) = (i = 1)"
| "py_eq_True (JFloat r) = (r = 1)"
| "py_eq_True JNull = False"
| "py_eq_True (JStr s) = False"
| "py_eq_True (JList xs) = False"
| "py_eq_True (JObj d) = False"

section \<open>input_processing.py: the sample loop\<close>

definition needed_keys_with_defaults :: pydict where
  "needed_keys_with_defaults =
     [(''id'', JNull),
      (''sub_administrative_area_id'', JNull),
      (''species'', JNull),
      (''age_group'', JNull),
      (''sex'', JNull),
      (''sample_source'', JNull),
      (''result'', JNull)]"

fun add_missing_defaults_inplace :: "pydict \<Rightarrow> pydict \<Rightarrow> pydict" where
  "add_missing_defaults_inplace original_dict [] = original_dict"
| "add_missing_defaults_inplace original_dict ((key, v) # default_values) =
     add_missing_defaults_inplace
       (if \<not> dict_contains original_dict key then dict_setitem original_dict key v
        else original_dict)
       default_values"

definition set_id :: "pydict \<Rightarrow> pydict" where
  \<comment> \<open>\<^verbatim>\<open>try: sample['id'] = sample['_id']  except KeyError: pass\<close>\<close>
  "set_id sample =
     (case py_getitem (JObj sample) ''_id'' of
        Inr v \<Rightarrow> dict_setitem sample ''id'' v
      | Inl e \<Rightarrow> sample)"

definition set_sub_administrative_area_id :: "pydict \<Rightarrow> pydict" where
  \<comment> \<open>\<^verbatim>\<open>except (KeyError, TypeError): pass\<close> catches every error of the two subscripts\<close>
  "set_sub_administrative_area_id sample =
     (case py_getitem (JObj sample) ''_sub_administrative_area'' of
        Inl e \<Rightarrow> sample
      | Inr area \<Rightarrow>
          (case py_getitem area ''_id'' of
             Inl e \<Rightarrow> sample
           | Inr v \<Rightarrow> dict_setitem sample ''sub_administrative_area_id'' v))"

fun tests_selected_definitive :: "json list \<Rightarrow> py_error + json list" where
  \<comment> \<open>the list comprehension of the result step; the first entry that raises ends it\<close>
  "tests_selected_definitive [] = Inr []"
| "tests_selected_definitive (test # rest) =
     (case py_contains ''selected_definitive'' test of
        Inl e \<Rightarrow> Inl e
      | Inr False \<Rightarrow> tests_selected_definitive rest
      | Inr True \<Rightarrow>
          (case py_getitem test ''selected_definitive'' of
             Inl e \<Rightarrow> Inl e
           | Inr v \<Rightarrow>
               (case tests_selected_definitive rest of
                  Inl e \<Rightarrow> Inl e
                | Inr sel \<Rightarrow> Inr (if py_eq_True v then test # sel else sel))))"

definition set_result :: "pydict \<Rightarrow> py_error + pydict" where
  "set_result sample =
     (case map_of sample ''tests'' of
        None \<Rightarrow> Inr (dict_setitem sample ''result'' JNull)
      | Some tests \<Rightarrow>
          (case py_len tests of
             Inl e \<Rightarrow> Inl e
           | Inr n \<Rightarrow>
               if n > 0 then
                 (case py_iter tests of
                    Inl e \<Rightarrow> Inl e
                  | Inr entries \<Rightarrow>
                      (case tests_selected_definitive entries of
                         Inl e \<Rightarrow> Inl e
                       | Inr [t] \<Rightarrow>
                           (case py_getitem t ''result'' of
                              Inr v \<Rightarrow> Inr (dict_setitem sample ''result'' v)
                            | Inl e \<Rightarrow>
                                if e \<in> {KeyError, TypeError, ValueError} then Inr sample
                                else Inl e)
                       | Inr sel \<Rightarrow> Inr (dict_setitem sample ''result'' JNull)))
               else Inr (dict_setitem sample ''result'' JNull)))"

definition normalize_sample :: "pydict \<Rightarrow> py_error + pydict" where
  \<comment> \<open>one turn of \<^verbatim>\<open>for sample in samples\<close>\<close>
  "normalize_sample sample =
     set_result
       (set_sub_administrative_area_id
          (set_id (add_missing_defaults_inplace sample needed_keys_with_defaults)))"

fun normalize_samples :: "pydict list \<Rightarrow> py_error + pydict list" where
  "normalize_samples [] = Inr []"
| "normalize_samples (sample # samples) =
     (case normalize_sample sample of
        Inl e \<Rightarrow> Inl e
      | Inr s \<Rightarrow>
          (case normalize_samples samples of
             Inl e \<Rightarrow> Inl e
           | Inr ss \<Rightarrow> Inr (s # ss)))"

section \<open>The csv module's DictWriter\<close>

text \<open>
  Both scripts' tables are written by \<^verbatim>\<open>csv.DictWriter\<close>. A row is the list of the
  values found under the field names, in the order of the field names, with the
  writer's \<^verbatim>\<open>restval\<close> (the empty string) for a missing key. With
  \<^verbatim>\<open>extrasaction='raise'\<close> a key outside the field names is a \<^verbatim>\<open>ValueError\<close>; with
  \<^verbatim>\<open>'ignore'\<close> it is not looked at. A table is the list of rows handed to the
  underlying writer, one per \<^verbatim>\<open>writerow\<close>; turning a row into text (quoting,
  number formatting) is the module's business.
\<close>

datatype extrasaction = Raise | Ignore

type_synonym csv_table = "json list list"

definition dict_to_list :: "extrasaction \<Rightarrow> string list \<Rightarrow> pydict \<Rightarrow> py_error + json list" where
  "dict_to_list extras fieldnames rowdict =
     (if extras = Raise \<and> \<not> set (dict_keys rowdict) \<subseteq> set fieldnames then Inl ValueError
      else Inr (map (\<lambda>key. case map_of rowdict key of Some v \<Rightarrow> v | None \<Rightarrow> JStr []) fieldnames))"

definition writeheader :: "extrasaction \<Rightarrow> string list \<Rightarrow> py_error + json list" where
  \<comment> \<open>\<^verbatim>\<open>self.writerow(dict(zip(self.fieldnames, self.fieldnames)))\<close>\<close>
  "writeheader extras fieldnames =
     dict_to_list extras fieldnames (zip fieldnames (map JStr fieldnames))"

fun writerows :: "extrasaction \<Rightarrow> string list \<Rightarrow> pydict list \<Rightarrow> py_error + csv_table" where
  "writerows extras fieldnames [] = Inr []"
| "writerows extras fieldnames (rowdict # rowdicts) =
     (case dict_to_list extras fieldnames rowdict of
        Inl e \<Rightarrow> Inl e
      | Inr r \<Rightarrow>
          (case writerows extras fieldnames rowdicts of
             Inl e \<Rightarrow> Inl e
           | Inr rs \<Rightarrow> Inr (r # rs)))"

definition write_csv :: "extrasaction \<Rightarrow> string list \<Rightarrow> pydict list \<Rightarrow> py_error + csv_table" where
  \<comment> \<open>\<^verbatim>\<open>writer.writeheader()\<close> followed by \<^verbatim>\<open>writer.writerows(records)\<close>\<close>
  "write_csv extras fieldnames records =
     (case writeheader extras fieldnames of
        Inl e \<Rightarrow> Inl e
      | Inr h \<Rightarrow>
          (case writerows extras fieldnames records of
             Inl e \<Rightarrow> Inl e
           | Inr rs \<Rightarrow> Inr (h # rs)))"

definition sample_fieldnames :: "string list" where
  "sample_fieldnames =
     [''id'',
      ''sub_administrative_area_id'',
      ''species'',
      ''age_group'',
      ''sex'',
      ''sample_source'',
      ''result'']"

definition sub_administrative_area_fieldnames :: "string list" where
  "sub_administrative_area_fieldnames = [''id'', ''full_name'']"

section \<open>Files, the narrative report and the execution log\<close>

text \<open>
  What opening and parsing a file gives: it is missing, it does not parse, or it holds
  a value.
\<close>

datatype 'a input_file = Absent | Unparseable | Parsed 'a

definition load :: "'a input_file \<Rightarrow> py_error + 'a" where
  "load f =
     (case f of
        Absent \<Rightarrow> Inl FileNotFoundError
      | Unparseable \<Rightarrow> Inl JSONDecodeError
      | Parsed v \<Rightarrow> Inr v)"

datatype level = INFO | ERROR

text \<open>
  A sheet of a workbook is a header row and rows of cells, each cell holding a text; a
  workbook is a list of named sheets.
\<close>

type_synonym sheet = "string list \<times> string list list"

type_synonym workbook = "(string \<times> sheet) list"

text \<open>The files under \<^verbatim>\<open>/data\<close> that the two scripts write.\<close>

record fs =
  info_html :: "string list"
  execution_log :: "(level \<times> string) list"
  attachments_json :: "json input_file"
  params_csv :: "csv_table option"
  sample_csv :: "csv_table option"
  sub_administrative_area_csv :: "csv_table option"
  prevalence_xlsx :: "workbook option"

text \<open>How a run ends: it reaches the last line, calls \<^verbatim>\<open>sys.exit\<close>, or dies of an exception.\<close>

datatype outcome = Finished | SystemExit nat | Uncaught py_error

fun exit_status :: "outcome \<Rightarrow> nat" where
  "exit_status Finished = 0"
| "exit_status (SystemExit n) = n"
| "exit_status (Uncaught e) = 1"

definition and_then :: "outcome \<times> fs \<Rightarrow> (fs \<Rightarrow> outcome \<times> fs) \<Rightarrow> outcome \<times> fs" where
  "and_then r next_stage =
     (case r of
        (Finished, s) \<Rightarrow> next_stage s
      | (stopped, s) \<Rightarrow> (stopped, s))"

definition model_log_html :: "string \<Rightarrow> string \<Rightarrow> fs \<Rightarrow> fs" where
  "model_log_html line html_element s =
     s\<lparr>info_html := info_html s @
          [''<'' @ html_element @ ''>'' @ line @ ''</'' @ html_element @ ''>'']\<rparr>"

definition logging_info :: "string \<Rightarrow> fs \<Rightarrow> fs" where
  "logging_info msg s = s\<lparr>execution_log := execution_log s @ [(INFO, msg)]\<rparr>"

definition logging_error :: "string \<Rightarrow> fs \<Rightarrow> fs" where
  "logging_error msg s = s\<lparr>execution_log := execution_log s @ [(ERROR, msg)]\<rparr>"

definition add_item_to_json_file_list :: "json \<Rightarrow> fs \<Rightarrow> py_error + fs" where
  "add_item_to_json_file_list new_item s =
     (case load (attachments_json s) of
        Inl e \<Rightarrow> Inl e
      | Inr (JList data) \<Rightarrow> Inr (s\<lparr>attachments_json := Parsed (JList (data @ [new_item]))\<rparr>)
      | Inr v \<Rightarrow> Inl ValueError)"

definition attachment :: "string \<Rightarrow> string \<Rightarrow> string \<Rightarrow> json" where
  "attachment filename content_type role =
     JObj [(''filename'', JStr filename),
           (''content_type'', JStr content_type),
           (''role'', JStr role)]"

fun dict_to_html_helper :: "(json \<Rightarrow> string) \<Rightarrow> string \<Rightarrow> string \<Rightarrow> pydict \<Rightarrow> string" where
  \<comment> \<open>the loop over \<^verbatim>\<open>data.items()\<close>, between the opening and the closing tag\<close>
  "dict_to_html_helper py_str opening closing [] = []"
| "dict_to_html_helper py_str opening closing ((key, v) # items) =
     ''<li>'' @ key @ '': '' @
     (case v of
        JObj d \<Rightarrow> opening @ dict_to_html_helper py_str opening closing d @ closing
      | JList xs \<Rightarrow>
          ''<ul>'' @ concat (map (\<lambda>item. ''<li>'' @ py_str item @ ''</li>'') xs) @ ''</ul>''
      | _ \<Rightarrow> py_str v) @
     ''</li>'' @ dict_to_html_helper py_str opening closing items"

definition dict_to_html_list :: "(json \<Rightarrow> string) \<Rightarrow> pydict \<Rightarrow> string \<Rightarrow> py_error + string" where
  "dict_to_html_list py_str data list_type =
     (if list_type = ''unordered'' then
        Inr (''<ul>'' @ dict_to_html_helper py_str ''<ul>'' ''</ul>'' data @ ''</ul>'')
      else if list_type = ''ordered'' then
        Inr (''<ol>'' @ dict_to_html_helper py_str ''<ol>'' ''</ol>'' data @ ''</ol>'')
      else Inl ValueError)"

definition str_plus :: "string \<Rightarrow> json \<Rightarrow> py_error + string" where
  \<comment> \<open>\<^verbatim>\<open>'text' + x\<close>: only a string can be added to a string\<close>
  "str_plus a x = (case x of JStr b \<Rightarrow> Inr (a @ b) | _ \<Rightarrow> Inl TypeError)"

section \<open>input_processing.py: the script from top to bottom\<close>

text \<open>
  What the script reads: the three warehouse files, and the clock (the formatted
  \<^verbatim>\<open>datetime.now()\<close> of the report line and of the log line). Python's \<^verbatim>\<open>str\<close> of a
  value is a parameter \<open>py_str\<close> of the functions that print values.
\<close>

record inputs =
  params_json :: "json input_file"
  sample_ndjson :: "pydict list input_file"
  sub_administrative_area_ndjson :: "pydict list input_file"
  date_for_report :: string
  date_for_log :: string

definition setup_file_structure :: "fs \<Rightarrow> outcome \<times> fs" where
  "setup_file_structure s0 =
     (let s = s0\<lparr>attachments_json := Parsed (JList [])\<rparr> in
      case add_item_to_json_file_list
             (attachment ''execution_log.log'' ''text/plain'' ''downloadable'') s of
        Inl e \<Rightarrow> (Uncaught e, s)
      | Inr s1 \<Rightarrow>
          (case add_item_to_json_file_list
                  (attachment ''info.html'' ''text/html'' ''feedback'') s1 of
             Inl e \<Rightarrow> (Uncaught e, s1)
           | Inr s2 \<Rightarrow> (Finished, s2)))"

definition setup_logging :: "fs \<Rightarrow> outcome \<times> fs" where
  \<comment> \<open>\<^verbatim>\<open>filemode = 'w'\<close>: the log starts empty\<close>
  "setup_logging s = (Finished, s\<lparr>execution_log := []\<rparr>)"

definition initiate_model_log :: "inputs \<Rightarrow> fs \<Rightarrow> outcome \<times> fs" where
  "initiate_model_log inp s0 =
     (let s = s0\<lparr>info_html := []\<rparr>;
          s = model_log_html ''Model Execution Summary'' ''h3'' s;
          s = model_log_html ''Model: Prevalence Estimator Data Export'' ''p'' s;
          s = model_log_html (''Date: '' @ date_for_report inp @ '' GMT'') ''p'' s;
          s = logging_info ''Model: Prevalence Estimator Data Export'' s;
          s = logging_info (''Date: '' @ date_for_log inp @ '' GMT'') s;
          s = logging_info
                ''This log records data for debugging purposes in the case of a model execution error.''
                s
      in (Finished, s))"

definition provider_admin_area_of :: "json \<Rightarrow> py_error + json" where
  \<comment> \<open>\<^verbatim>\<open>params['_provider']['_administrative_area']['administrative_area']\<close>\<close>
  "provider_admin_area_of params =
     (case py_getitem params ''_provider'' of
        Inl e \<Rightarrow> Inl e
      | Inr provider \<Rightarrow>
          (case py_getitem provider ''_administrative_area'' of
             Inl e \<Rightarrow> Inl e
           | Inr area \<Rightarrow> py_getitem area ''administrative_area''))"

definition process_parameters :: "(json \<Rightarrow> string) \<Rightarrow> inputs \<Rightarrow> fs \<Rightarrow> outcome \<times> fs" where
  "process_parameters py_str inp s0 =
     (case load (params_json inp) of
        Inl e \<Rightarrow>
          (let s = logging_error ''params.json File does not exist.'' s0;
               s = model_log_html ''ERROR'' ''h4'' s;
               s = model_log_html ''Parameters (params.json) file not found.'' ''p'' s
           in (SystemExit 1, s))
      | Inr params \<Rightarrow>
          (let s = logging_info ''Parameter file loaded successfully'' s0 in
           case provider_admin_area_of params of
             Inl e \<Rightarrow> (Uncaught e, s)
           | Inr provider_admin_area \<Rightarrow>
               (case params of
                  JObj d \<Rightarrow>
                    (case dict_delitem d ''_provider'' of
                       Inl e \<Rightarrow> (Uncaught e, s)
                     | Inr d' \<Rightarrow>
                         (case write_csv Ignore (dict_keys d') [d'] of
                            Inl e \<Rightarrow> (Uncaught e, s)
                          | Inr table \<Rightarrow>
                              (let s = s\<lparr>params_csv := Some table\<rparr> in
                               case str_plus ''Provider area: '' provider_admin_area of
                                 Inl e \<Rightarrow> (Uncaught e, s)
                               | Inr line \<Rightarrow>
                                   (let s = model_log_html line ''p'' s;
                                        s = model_log_html ''User provided parameters:'' ''h4'' s
                                    in case dict_to_html_list py_str d' ''unordered'' of
                                         Inl e \<Rightarrow> (Uncaught e, s)
                                       | Inr html \<Rightarrow> (Finished, model_log_html html ''p'' s)))))
                | _ \<Rightarrow> (Uncaught TypeError, s))))"

definition process_samples :: "(json \<Rightarrow> string) \<Rightarrow> inputs \<Rightarrow> fs \<Rightarrow> outcome \<times> fs" where
  "process_samples py_str inp s0 =
     (case load (sample_ndjson inp) of
        Inl e \<Rightarrow>
          (let s = logging_error ''samples.ndjson file does not exist.'' s0;
               s = model_log_html ''ERROR'' ''h4'' s;
               s = model_log_html
                     ''Samples (sample.ndjson) file not found. Sample data are required to run this model. Execution halted.''
                     ''p'' s
           in (SystemExit 1, s))
      | Inr samples \<Rightarrow>
          (let s = logging_info ''Sample file loaded successfully'' s0;
               s = model_log_html ''Warehouse data provided to model'' ''h4'' s;
               s = model_log_html (''Samples: '' @ py_str (JInt (int (length samples)))) ''p'' s
           in case normalize_samples samples of
                Inl e \<Rightarrow> (Uncaught e, s)
              | Inr normalized \<Rightarrow>
                  (case write_csv Ignore sample_fieldnames normalized of
                     Inl e \<Rightarrow> (Uncaught e, s)
                   | Inr table \<Rightarrow> (Finished, s\<lparr>sample_csv := Some table\<rparr>))))"

definition set_subadmin_id :: "pydict \<Rightarrow> pydict" where
  \<comment> \<open>\<^verbatim>\<open>try: subadmin['id'] = subadmin['_id']  except (KeyError, TypeError): pass\<close>\<close>
  "set_subadmin_id subadmin =
     (case py_getitem (JObj subadmin) ''_id'' of
        Inr v \<Rightarrow> dict_setitem subadmin ''id'' v
      | Inl e \<Rightarrow> subadmin)"

definition process_sub_administrative_areas :: "inputs \<Rightarrow> fs \<Rightarrow> outcome \<times> fs" where
  "process_sub_administrative_areas inp s0 =
     (case load (sub_administrative_area_ndjson inp) of
        Inl e \<Rightarrow>
          (let s = logging_error ''sub_administrative_area.json File does not exist.'' s0;
               s = model_log_html ''ERROR'' ''h4'' s;
               s = model_log_html
                     ''Sub-administrative areas (sub_administrative_area.json) file not found.''
                     ''p'' s
           in (SystemExit 1, s))
      | Inr subadmins \<Rightarrow>
          (let s = logging_info ''Sub-administrative area file loaded successfully'' s0 in
           case write_csv Ignore sub_administrative_area_fieldnames
                  (map set_subadmin_id subadmins) of
             Inl e \<Rightarrow> (Uncaught e, s)
           | Inr table \<Rightarrow>
               (Finished,
                logging_info ''Model input processing successfully completed.''
                  (s\<lparr>sub_administrative_area_csv := Some table\<rparr>))))"

definition handle_uncaught_exception :: "outcome \<times> fs \<Rightarrow> outcome \<times> fs" where
  \<comment> \<open>\<^verbatim>\<open>sys.excepthook\<close>: an exception that reaches the top is written to the log\<close>
  "handle_uncaught_exception r =
     (case r of
        (Uncaught e, s) \<Rightarrow> (Uncaught e, logging_error ''Uncaught exception:'' s)
      | other \<Rightarrow> other)"

definition input_processing :: "(json \<Rightarrow> string) \<Rightarrow> inputs \<Rightarrow> fs \<Rightarrow> outcome \<times> fs" where
  "input_processing py_str inp s0 =
     (case setup_file_structure s0 of
        (Finished, s) \<Rightarrow>
          handle_uncaught_exception
            (and_then
               (and_then
                  (and_then
                     (and_then (setup_logging s) (initiate_model_log inp))
                     (process_parameters py_str inp))
                  (process_samples py_str inp))
               (process_sub_administrative_areas inp))
      | stopped \<Rightarrow> stopped)"

section \<open>output_processing.py\<close>

subsection \<open>What pandas does with the file\<close>









record dataframe =
  index_cells :: "string list list"
  column_names :: "string list"
  cells :: "string list list"



subsection \<open>The script\<close>


section \<open>Vocabulary of the specification\<close>

text \<open>
  A test entry counts as selected, in the script's sense, when it is a mapping whose
  \<^verbatim>\<open>selected_definitive\<close> field is present and passes the script's comparison
  \<^verbatim>\<open>== True\<close>: the boolean true does, and so do the numbers 1 and 1.0.
\<close>

fun is_selected_definitive :: "json \<Rightarrow> bool" where
  "is_selected_definitive (JObj d) =
     (case map_of d ''selected_definitive'' of Some v \<Rightarrow> py_eq_True v | None \<Rightarrow> False)"
| "is_selected_definitive v = False"


fun is_mapping :: "json \<Rightarrow> bool" where
  "is_mapping (JObj d) = True"
| "is_mapping v = False"

text \<open>A record is well formed when its \<^verbatim>\<open>tests\<close>, if present, is a list of mappings.\<close>

definition tests_well_formed :: "pydict \<Rightarrow> bool" where
  "tests_well_formed sample =
     (case map_of sample ''tests'' of
        None \<Rightarrow> True
      | Some (JList ts) \<Rightarrow> list_all is_mapping ts
      | Some v \<Rightarrow> False)"

text \<open>The entries on which the filter of the result step raises.\<close>

fun entry_raises :: "json \<Rightarrow> bool" where
  "entry_raises (JObj d) = False"
| "entry_raises (JList xs) = (JStr ''selected_definitive'' \<in> set xs)"
| "entry_raises (JStr s) = str_contains ''selected_definitive'' s"
| "entry_raises v = True"

text \<open>The value a record has under a canonical field before the result step: its own, or null.\<close>

definition as_is :: "pydict \<Rightarrow> string \<Rightarrow> json" where
  "as_is sample key = (case map_of sample key of Some v \<Rightarrow> v | None \<Rightarrow> JNull)"

text \<open>The record as the result step finds it: after default-fill, identity and area derivation.\<close>

definition before_result :: "pydict \<Rightarrow> pydict" where
  "before_result sample =
     set_sub_administrative_area_id
       (set_id (add_missing_defaults_inplace sample needed_keys_with_defaults))"

text \<open>Two dictionaries with the same key-value pairs, in any key order.\<close>

definition same_fields :: "pydict \<Rightarrow> pydict \<Rightarrow> bool" where
  "same_fields a b = (distinct (map fst a) \<and> distinct (map fst b) \<and> set a = set b)"

text \<open>The value a row shows under a column: the record's value, or the writer's empty string.\<close>

definition cell :: "pydict \<Rightarrow> string \<Rightarrow> json" where
  "cell rowdict key = (case map_of rowdict key of Some v \<Rightarrow> v | None \<Rightarrow> JStr [])"

text \<open>
  What every run of the input script leaves behind before it reads a file: the first
  three lines of the narrative report, the first three lines of the log, and the two
  entries of the attachment manifest. An error entry of the report is an \<^verbatim>\<open>ERROR\<close>
  heading. \<open>empty_fs\<close> is a data directory in which none of the files exists yet.
\<close>

definition report_header :: "inputs \<Rightarrow> string list" where
  "report_header inp =
     [''<h3>Model Execution Summary</h3>'',
      ''<p>Model: Prevalence Estimator Data Export</p>'',
      ''<p>Date: '' @ date_for_report inp @ '' GMT</p>'']"

definition log_header :: "inputs \<Rightarrow> (level \<times> string) list" where
  "log_header inp =
     [(INFO, ''Model: Prevalence Estimator Data Export''),
      (INFO, ''Date: '' @ date_for_log inp @ '' GMT''),
      (INFO, ''This log records data for debugging purposes in the case of a model execution error.'')]"

definition initial_attachments :: "json list" where
  "initial_attachments =
     [attachment ''execution_log.log'' ''text/plain'' ''downloadable'',
      attachment ''info.html'' ''text/html'' ''feedback'']"

definition error_entries :: "string list \<Rightarrow> string list" where
  "error_entries report = filter (\<lambda>line. line = ''<h4>ERROR</h4>'') report"

definition empty_fs :: fs where
  "empty_fs = \<lparr>info_html = [], execution_log = [], attachments_json = Absent,
      params_csv = None, sample_csv = None, sub_administrative_area_csv = None,
      prevalence_xlsx = None\<rparr>"



section \<open>Lemmas on dictionaries and on the steps of the sample loop\<close>


lemma map_of_setitem: "map_of (dict_setitem d k v) = (map_of d)(k \<mapsto> v)"
  by (simp add: dict_setitem_def update_conv')

lemma map_of_add_missing:
  "map_of (add_missing_defaults_inplace d defs) k =
     (case map_of d k of Some v \<Rightarrow> Some v | None \<Rightarrow> map_of defs k)"
  by (induction defs arbitrary: d)
     (auto simp: dict_contains_def map_of_setitem split: option.splits)

lemma map_of_needed_keys:
  "map_of needed_keys_with_defaults k =
     (if k \<in> set sample_fieldnames then Some JNull else None)"
  by (simp add: needed_keys_with_defaults_def sample_fieldnames_def)

lemma map_of_set_id:
  "map_of (set_id s) k =
     (if k = ''id'' then (case map_of s ''_id'' of Some v \<Rightarrow> Some v | None \<Rightarrow> map_of s ''id'')
      else map_of s k)"
  by (simp add: set_id_def map_of_setitem split: option.splits)

lemma map_of_set_sub:
  "map_of (set_sub_administrative_area_id s) k =
     (if k = ''sub_administrative_area_id'' then
        (case map_of s ''_sub_administrative_area'' of
           Some (JObj area) \<Rightarrow>
             (case map_of area ''_id'' of Some v \<Rightarrow> Some v | None \<Rightarrow> map_of s k)
         | _ \<Rightarrow> map_of s k)
      else map_of s k)"
  by (simp add: set_sub_administrative_area_id_def map_of_setitem
           split: option.splits json.splits)

lemma tsd_filter:
  "tests_selected_definitive ts = Inr sel \<Longrightarrow> sel = filter is_selected_definitive ts"
proof (induction ts arbitrary: sel)
  case Nil then show ?case by simp
next
  case (Cons t ts)
  show ?case
  proof (cases t)
    case (JObj d)
    with Cons show ?thesis
      by (auto simp: dict_contains_def split: sum.splits bool.splits option.splits if_splits)
  qed (use Cons in \<open>auto split: sum.splits bool.splits if_splits\<close>)
qed

lemma tsd_raises:
  "(\<exists>e. tests_selected_definitive ts = Inl e) \<longleftrightarrow> list_ex entry_raises ts"
proof (induction ts)
  case Nil then show ?case by simp
next
  case (Cons t ts)
  show ?case
  proof (cases t)
    case (JObj d)
    with Cons show ?thesis
      by (auto simp: dict_contains_def split: sum.splits bool.splits option.splits if_splits)
  qed (use Cons in \<open>auto split: sum.splits bool.splits if_splits\<close>)
qed

lemma tsd_total:
  assumes "list_all is_mapping ts"
  shows "tests_selected_definitive ts = Inr (filter is_selected_definitive ts)"
proof -
  have "\<not> list_ex entry_raises ts"
    using assms by (induction ts) (auto elim: is_mapping.elims)
  then obtain sel where "tests_selected_definitive ts = Inr sel"
    using tsd_raises [of ts] by (cases "tests_selected_definitive ts") auto
  then show ?thesis using tsd_filter by simp
qed

lemma set_result_other:
  "set_result s = Inr out \<Longrightarrow> k \<noteq> ''result'' \<Longrightarrow> map_of out k = map_of s k"
  by (auto simp: set_result_def map_of_setitem
           split: option.splits sum.splits if_splits list.splits)


lemma set_result_list:
  assumes "map_of s ''tests'' = Some (JList ts)" and "set_result s = Inr out"
  shows "map_of out ''result'' =
     (case filter is_selected_definitive ts of
        [t] \<Rightarrow> (case py_getitem t ''result'' of Inr v \<Rightarrow> Some v | Inl e \<Rightarrow> map_of s ''result'')
      | _ \<Rightarrow> Some JNull)"
proof (cases "ts = []")
  case True
  with assms show ?thesis by (auto simp: set_result_def map_of_setitem)
next
  case False
  then have len: "0 < length ts" by simp
  from assms len obtain sel where sel: "tests_selected_definitive ts = Inr sel"
    by (cases "tests_selected_definitive ts") (auto simp: set_result_def)
  then have eq: "sel = filter is_selected_definitive ts" by (rule tsd_filter)
  from assms len sel show ?thesis
    unfolding eq [symmetric]
    by (auto simp: set_result_def map_of_setitem split: list.splits sum.splits if_splits)
qed

lemma set_result_total:
  assumes "tests_well_formed s"
  shows "\<exists>out. set_result s = Inr out"
proof (cases "map_of s ''tests''")
  case None
  then show ?thesis by (simp add: set_result_def)
next
  case (Some v)
  with assms obtain ts where v: "v = JList ts" and all: "list_all is_mapping ts"
    by (auto simp: tests_well_formed_def split: json.splits)
  have sel: "tests_selected_definitive ts = Inr (filter is_selected_definitive ts)"
    using all by (rule tsd_total)
  have get: "\<And>t. t \<in> set ts \<Longrightarrow> py_getitem t ''result'' = Inl e \<Longrightarrow> e = KeyError" for e
    using all by (auto simp: list_all_iff elim!: is_mapping.elims split: option.splits)
  show ?thesis
  proof (cases "filter is_selected_definitive ts")
    case Nil
    with Some v sel show ?thesis by (simp add: set_result_def)
  next
    case (Cons t rest)
    then have "t \<in> set (filter is_selected_definitive ts)" by simp
    then have tin: "t \<in> set ts" by simp
    show ?thesis
    proof (cases rest)
      case Nil
      with Cons Some v sel get [OF tin] show ?thesis
        by (cases "py_getitem t ''result''") (auto simp: set_result_def)
    next
      case (Cons u us)
      with \<open>filter is_selected_definitive ts = t # rest\<close> Some v sel show ?thesis
        by (simp add: set_result_def)
    qed
  qed
qed

lemma normalize_sample_split: "normalize_sample s = set_result (before_result s)"
  by (simp add: normalize_sample_def before_result_def)

lemma before_result_tests: "map_of (before_result s) ''tests'' = map_of s ''tests''"
  by (simp add: before_result_def map_of_set_sub map_of_set_id map_of_add_missing
        map_of_needed_keys sample_fieldnames_def split: option.splits)

lemma before_result_result: "map_of (before_result s) ''result'' = Some (as_is s ''result'')"
  by (simp add: before_result_def map_of_set_sub map_of_set_id map_of_add_missing
        map_of_needed_keys sample_fieldnames_def as_is_def split: option.splits)

lemma normalize_sample_total:
  "tests_well_formed s \<Longrightarrow> \<exists>out. normalize_sample s = Inr out"
  unfolding normalize_sample_split
  by (rule set_result_total) (simp add: tests_well_formed_def before_result_tests)

lemma set_id_keeps: "map_of s k \<noteq> None \<Longrightarrow> map_of (set_id s) k \<noteq> None"
  by (auto simp: set_id_def map_of_setitem split: sum.splits)

lemma set_sub_keeps:
  "map_of s k \<noteq> None \<Longrightarrow> map_of (set_sub_administrative_area_id s) k \<noteq> None"
  by (auto simp: set_sub_administrative_area_id_def map_of_setitem split: sum.splits)

lemma before_result_canonical:
  assumes "k \<in> set sample_fieldnames"
  shows "map_of (before_result sample) k \<noteq> None"
  using assms unfolding before_result_def
  by (intro set_sub_keeps set_id_keeps)
     (simp add: map_of_add_missing map_of_needed_keys split: option.splits)

lemma set_result_sets_result:
  assumes "set_result s = Inr out" and "map_of s ''result'' \<noteq> None"
  shows "map_of out ''result'' \<noteq> None"
  using assms
  by (auto simp: set_result_def map_of_setitem
        split: option.splits sum.splits if_splits list.splits)

text \<open>
  What the result step does when exactly one entry is selected: the entry's
  \<^verbatim>\<open>result\<close> when it has one, and otherwise the value the record already had.
\<close>

lemma result_of_single_definitive_test:
  assumes "map_of sample ''tests'' = Some (JList ts)"
    and "filter is_selected_definitive ts = [t]"
    and "normalize_sample sample = Inr out"
  shows "map_of out ''result'' =
     Some (case py_getitem t ''result'' of Inr v \<Rightarrow> v | Inl e \<Rightarrow> as_is sample ''result'')"
  using set_result_list [of "before_result sample" ts out] assms
  by (simp add: normalize_sample_split before_result_tests before_result_result split: sum.splits)

section \<open>The sample normalizer\<close>

text \<open>
  Claim C1. For a record whose \<^verbatim>\<open>tests\<close> holds exactly one entry with
  \<^verbatim>\<open>selected_definitive\<close> true, \<^verbatim>\<open>result\<close> becomes that entry's \<^verbatim>\<open>result\<close>, or null when
  the entry has none, whatever \<^verbatim>\<open>result\<close> the input record carried. The script's
  comment says the same (``If so, use it, else set to None''), but its \<^verbatim>\<open>except\<close>
  branch is \<^verbatim>\<open>pass\<close>: on the record below, whose single selected entry has no
  \<^verbatim>\<open>result\<close>, the value \<^verbatim>\<open>old\<close> of the input survives.
\<close>

theorem definitive_test_without_result_keeps_input_result:
  "normalize_sample
     [(''result'', JStr ''old''),
      (''tests'', JList [JObj [(''selected_definitive'', JBool True)]])]
   = Inr [(''result'', JStr ''old''),
          (''tests'', JList [JObj [(''selected_definitive'', JBool True)]]),
          (''id'', JNull),
          (''sub_administrative_area_id'', JNull),
          (''species'', JNull),
          (''age_group'', JNull),
          (''sex'', JNull),
          (''sample_source'', JNull)]"
  by (simp add: normalize_sample_def needed_keys_with_defaults_def dict_contains_def
        dict_setitem_def set_id_def set_sub_administrative_area_id_def set_result_def)

text \<open>
  Claim C2. After default-fill a record has all seven canonical fields; a field the
  input had keeps its value (an explicit null included), a canonical field the input
  lacked is null, and the same seven fields are present in every record the
  normalizer returns. Default-fill itself has no failing operation: it is a total
  function on dictionaries.
\<close>

theorem default_fill_gives_all_canonical_fields:
  "(\<forall>k \<in> set sample_fieldnames.
      dict_contains (add_missing_defaults_inplace sample needed_keys_with_defaults) k)
   \<and> (\<forall>k v. map_of sample k = Some v \<longrightarrow>
         map_of (add_missing_defaults_inplace sample needed_keys_with_defaults) k = Some v)
   \<and> (\<forall>k \<in> set sample_fieldnames. map_of sample k = None \<longrightarrow>
         map_of (add_missing_defaults_inplace sample needed_keys_with_defaults) k = Some JNull)
   \<and> (\<forall>out. normalize_sample sample = Inr out \<longrightarrow>
         (\<forall>k \<in> set sample_fieldnames. dict_contains out k))"
proof (intro conjI allI impI ballI)
  fix k assume "k \<in> set sample_fieldnames"
  then show "dict_contains (add_missing_defaults_inplace sample needed_keys_with_defaults) k"
    by (simp add: dict_contains_def map_of_add_missing map_of_needed_keys split: option.splits)
next
  fix k v assume "map_of sample k = Some v"
  then show "map_of (add_missing_defaults_inplace sample needed_keys_with_defaults) k = Some v"
    by (simp add: map_of_add_missing)
next
  fix k assume "k \<in> set sample_fieldnames" "map_of sample k = None"
  then show "map_of (add_missing_defaults_inplace sample needed_keys_with_defaults) k = Some JNull"
    by (simp add: map_of_add_missing map_of_needed_keys)
next
  fix out k assume out: "normalize_sample sample = Inr out" and k: "k \<in> set sample_fieldnames"
  have pre: "map_of (before_result sample) k \<noteq> None"
    using k by (rule before_result_canonical)
  show "dict_contains out k"
  proof (cases "k = ''result''")
    case True
    with out pre show ?thesis
      unfolding normalize_sample_split dict_contains_def
      by (simp add: set_result_sets_result)
  next
    case False
    with out pre show ?thesis
      by (simp add: normalize_sample_split dict_contains_def set_result_other)
  qed
qed

theorem default_fill_gives_all_canonical_fields_witness:
  "list_all
     (dict_contains
        (add_missing_defaults_inplace [(''species'', JStr ''deer''), (''sex'', JNull)]
           needed_keys_with_defaults))
     sample_fieldnames
   \<and> map_of (add_missing_defaults_inplace [(''species'', JStr ''deer''), (''sex'', JNull)]
           needed_keys_with_defaults) ''species'' = Some (JStr ''deer'')
   \<and> map_of (add_missing_defaults_inplace [(''species'', JStr ''deer''), (''sex'', JNull)]
           needed_keys_with_defaults) ''sex'' = Some JNull
   \<and> map_of (add_missing_defaults_inplace [(''species'', JStr ''deer''), (''sex'', JNull)]
           needed_keys_with_defaults) ''age_group'' = Some JNull
   \<and> normalize_sample [(''species'', JStr ''deer''), (''sex'', JNull)] =
       Inr [(''species'', JStr ''deer''), (''sex'', JNull), (''id'', JNull),
            (''sub_administrative_area_id'', JNull), (''age_group'', JNull),
            (''sample_source'', JNull), (''result'', JNull)]
   \<and> list_all
        (dict_contains
           [(''species'', JStr ''deer''), (''sex'', JNull), (''id'', JNull),
            (''sub_administrative_area_id'', JNull), (''age_group'', JNull),
            (''sample_source'', JNull), (''result'', JNull)])
        sample_fieldnames"
proof -
  let ?s = "[(''species'', JStr ''deer''), (''sex'', JNull)]"
  note t = default_fill_gives_all_canonical_fields [of ?s]
  have n: "normalize_sample ?s =
     Inr [(''species'', JStr ''deer''), (''sex'', JNull), (''id'', JNull),
          (''sub_administrative_area_id'', JNull), (''age_group'', JNull),
          (''sample_source'', JNull), (''result'', JNull)]"
    by (simp add: normalize_sample_def needed_keys_with_defaults_def dict_contains_def
        dict_setitem_def set_id_def set_sub_administrative_area_id_def set_result_def)
  have a: "map_of ?s ''species'' = Some (JStr ''deer'')" "map_of ?s ''sex'' = Some JNull"
    by simp_all
  have b: "''age_group'' \<in> set sample_fieldnames" "map_of ?s ''age_group'' = None"
    by (simp_all add: sample_fieldnames_def)
  from t a b n show ?thesis unfolding list_all_iff by blast
qed

lemma before_result_area:
  "map_of (before_result sample) ''sub_administrative_area_id'' =
     Some (case map_of sample ''_sub_administrative_area'' of
             Some (JObj area) \<Rightarrow>
               (case map_of area ''_id'' of
                  Some v \<Rightarrow> v
                | None \<Rightarrow> as_is sample ''sub_administrative_area_id'')
           | _ \<Rightarrow> as_is sample ''sub_administrative_area_id'')"
  by (simp add: before_result_def map_of_set_sub map_of_set_id map_of_add_missing
        map_of_needed_keys sample_fieldnames_def as_is_def split: option.splits json.splits)

lemma set_result_raises:
  "(\<exists>e. set_result s = Inl e) \<longleftrightarrow>
     (case map_of s ''tests'' of
        None \<Rightarrow> False
      | Some v \<Rightarrow> (case py_iter v of Inl e \<Rightarrow> True | Inr entries \<Rightarrow> list_ex entry_raises entries))"
proof (cases "map_of s ''tests''")
  case None
  then show ?thesis by (simp add: set_result_def)
next
  case (Some v)
  show ?thesis
  proof (cases "py_iter v")
    case (Inl e)
    then have "py_len v = Inl TypeError" by (cases v) auto
    with Some Inl show ?thesis by (simp add: set_result_def)
  next
    case (Inr entries)
    then have len: "py_len v = Inr (length entries)" by (cases v) auto
    have caught: "e = KeyError \<or> e = TypeError" if "py_getitem t ''result'' = Inl e" for t e
      using that by (cases t) (auto split: option.splits)
    show ?thesis
    proof (cases "tests_selected_definitive entries")
      case (Inl e)
      then have ex: "list_ex entry_raises entries" using tsd_raises [of entries] by auto
      then have "entries \<noteq> []" by auto
      with Some Inr len Inl ex show ?thesis by (simp add: set_result_def)
    next
      case sel: (Inr sel)
      then have nex: "\<not> list_ex entry_raises entries" using tsd_raises [of entries] by auto
      have "\<exists>out. set_result s = Inr out"
        using Some Inr len sel caught
        by (auto simp: set_result_def split: list.splits sum.splits)
      with Some Inr nex show ?thesis by auto
    qed
  qed
qed




text \<open>
  Claim C7. When the record has a \<^verbatim>\<open>_sub_administrative_area\<close> object with an \<^verbatim>\<open>_id\<close>,
  the normalized \<^verbatim>\<open>sub_administrative_area_id\<close> is that \<^verbatim>\<open>_id\<close>; otherwise it is what the
  record had under \<^verbatim>\<open>sub_administrative_area_id\<close>, null when it had nothing.
\<close>

theorem area_derivation:
  "(\<forall>out. normalize_sample sample = Inr out \<longrightarrow>
      map_of out ''sub_administrative_area_id'' =
        Some (case map_of sample ''_sub_administrative_area'' of
                Some (JObj area) \<Rightarrow>
                  (case map_of area ''_id'' of
                     Some v \<Rightarrow> v
                   | None \<Rightarrow> as_is sample ''sub_administrative_area_id'')
              | _ \<Rightarrow> as_is sample ''sub_administrative_area_id''))
   \<and> (tests_well_formed sample \<longrightarrow> (\<exists>out. normalize_sample sample = Inr out))"
proof (intro conjI allI impI)
  fix out assume "normalize_sample sample = Inr out"
  then have "map_of out ''sub_administrative_area_id'' =
             map_of (before_result sample) ''sub_administrative_area_id''"
    unfolding normalize_sample_split by (rule set_result_other) simp
  then show "map_of out ''sub_administrative_area_id'' =
        Some (case map_of sample ''_sub_administrative_area'' of
                Some (JObj area) \<Rightarrow>
                  (case map_of area ''_id'' of
                     Some v \<Rightarrow> v
                   | None \<Rightarrow> as_is sample ''sub_administrative_area_id'')
              | _ \<Rightarrow> as_is sample ''sub_administrative_area_id'')"
    by (simp only: before_result_area)
next
  assume "tests_well_formed sample"
  then show "\<exists>out. normalize_sample sample = Inr out" by (rule normalize_sample_total)
qed

theorem area_derivation_witness:
  "tests_well_formed [(''_sub_administrative_area'', JObj [(''_id'', JStr ''a7'')])]
   \<and> (\<exists>out. normalize_sample [(''_sub_administrative_area'', JObj [(''_id'', JStr ''a7'')])] = Inr out
         \<and> map_of out ''sub_administrative_area_id'' = Some (JStr ''a7''))"
proof -
  let ?s = "[(''_sub_administrative_area'', JObj [(''_id'', JStr ''a7'')])]"
  have wf: "tests_well_formed ?s" by (simp add: tests_well_formed_def)
  from area_derivation [of ?s] wf obtain out where out: "normalize_sample ?s = Inr out"
    and "map_of out ''sub_administrative_area_id'' =
        Some (case map_of ?s ''_sub_administrative_area'' of
                Some (JObj area) \<Rightarrow>
                  (case map_of area ''_id'' of
                     Some v \<Rightarrow> v
                   | None \<Rightarrow> as_is ?s ''sub_administrative_area_id'')
              | _ \<Rightarrow> as_is ?s ''sub_administrative_area_id'')"
    by blast
  then have "map_of out ''sub_administrative_area_id'' = Some (JStr ''a7'')" by simp
  with wf out show ?thesis by blast
qed

text \<open>
  Claim C10, as stated: the normalizer raises on some record whose \<^verbatim>\<open>tests\<close> is not a
  sequence of mappings, and returns only for records whose \<^verbatim>\<open>tests\<close>, when present,
  is a sequence of mappings. The second half fails: a \<^verbatim>\<open>tests\<close> list holding the string
  \<^verbatim>\<open>abc\<close> is normalized, because \<^verbatim>\<open>"selected_definitive" in "abc"\<close> is a substring test
  that answers false.
\<close>

theorem normalize_total_beyond_mappings_counterexample:
  "normalize_sample [(''tests'', JList [JStr ''abc''])]
     = Inr [(''tests'', JList [JStr ''abc'']),
            (''id'', JNull),
            (''sub_administrative_area_id'', JNull),
            (''species'', JNull),
            (''age_group'', JNull),
            (''sex'', JNull),
            (''sample_source'', JNull),
            (''result'', JNull)]
   \<and> \<not> tests_well_formed [(''tests'', JList [JStr ''abc''])]"
  by (simp add: normalize_sample_def needed_keys_with_defaults_def dict_contains_def
        dict_setitem_def set_id_def set_sub_administrative_area_id_def set_result_def
        tests_well_formed_def)

text \<open>
  Claim C10, amended. The normalizer raises when \<^verbatim>\<open>tests\<close> is null, a number, or a list
  holding a number; it returns for every record whose \<^verbatim>\<open>tests\<close>, when present, is a list
  of mappings; and it raises exactly when \<^verbatim>\<open>tests\<close> is present and either cannot be
  iterated or yields an entry on which the filter raises (a null, boolean or number, or
  a string or list that contains \<^verbatim>\<open>selected_definitive\<close>).
\<close>

theorem normalize_raises_or_total:
  "normalize_sample [(''tests'', JNull)] = Inl TypeError
   \<and> normalize_sample [(''tests'', JInt 5)] = Inl TypeError
   \<and> normalize_sample [(''tests'', JList [JInt 5])] = Inl TypeError
   \<and> (tests_well_formed sample \<longrightarrow> (\<exists>out. normalize_sample sample = Inr out))
   \<and> ((\<exists>e. normalize_sample sample = Inl e) \<longleftrightarrow>
        (case map_of sample ''tests'' of
           None \<Rightarrow> False
         | Some v \<Rightarrow>
             (case py_iter v of
                Inl e \<Rightarrow> True
              | Inr entries \<Rightarrow> list_ex entry_raises entries)))"
proof (intro conjI impI)
  show "normalize_sample [(''tests'', JNull)] = Inl TypeError"
    by (simp add: normalize_sample_def needed_keys_with_defaults_def dict_contains_def
        dict_setitem_def set_id_def set_sub_administrative_area_id_def set_result_def)
  show "normalize_sample [(''tests'', JInt 5)] = Inl TypeError"
    by (simp add: normalize_sample_def needed_keys_with_defaults_def dict_contains_def
        dict_setitem_def set_id_def set_sub_administrative_area_id_def set_result_def)
  show "normalize_sample [(''tests'', JList [JInt 5])] = Inl TypeError"
    by (simp add: normalize_sample_def needed_keys_with_defaults_def dict_contains_def
        dict_setitem_def set_id_def set_sub_administrative_area_id_def set_result_def)
  show "\<exists>out. normalize_sample sample = Inr out" if "tests_well_formed sample"
    using that by (rule normalize_sample_total)
  show "(\<exists>e. normalize_sample sample = Inl e) \<longleftrightarrow>
        (case map_of sample ''tests'' of
           None \<Rightarrow> False
         | Some v \<Rightarrow>
             (case py_iter v of
                Inl e \<Rightarrow> True
              | Inr entries \<Rightarrow> list_ex entry_raises entries))"
    unfolding normalize_sample_split set_result_raises before_result_tests ..
qed

theorem normalize_raises_or_total_witness:
  "tests_well_formed [(''tests'', JList [JObj [(''selected_definitive'', JBool False)]])]
   \<and> (\<exists>out. normalize_sample [(''tests'', JList [JObj [(''selected_definitive'', JBool False)]])] = Inr out)
   \<and> \<not> (\<exists>e. normalize_sample [(''tests'', JList [JObj [(''selected_definitive'', JBool False)]])] = Inl e)"
proof -
  let ?s = "[(''tests'', JList [JObj [(''selected_definitive'', JBool False)]])]"
  have wf: "tests_well_formed ?s" by (simp add: tests_well_formed_def)
  have no: "\<not> (case map_of ?s ''tests'' of
           None \<Rightarrow> False
         | Some v \<Rightarrow>
             (case py_iter v of
                Inl e \<Rightarrow> True
              | Inr entries \<Rightarrow> list_ex entry_raises entries))"
    by simp
  from normalize_raises_or_total [of ?s] wf no show ?thesis by blast
qed

section \<open>Tabulating the normalized samples\<close>

lemma same_fields_map_of: "same_fields a b \<Longrightarrow> map_of a = map_of b"
  by (simp add: same_fields_def map_of_inject_set)

lemma writeheader_row: "writeheader extras fieldnames = Inr (map JStr fieldnames)"
proof -
  have keys: "set (dict_keys (zip fieldnames (map JStr fieldnames))) \<subseteq> set fieldnames"
    by (simp add: dict_keys_def)
  have "map_of (zip fieldnames (map JStr fieldnames)) k = Some (JStr k)"
    if "k \<in> set fieldnames" for k
    using that by (simp add: map_of_zip_map)
  then have "map (\<lambda>key. case map_of (zip fieldnames (map JStr fieldnames)) key of
                Some v \<Rightarrow> v | None \<Rightarrow> JStr []) fieldnames = map JStr fieldnames"
    by (intro map_cong) auto
  with keys show ?thesis by (simp add: writeheader_def dict_to_list_def)
qed

lemma writerows_ignore:
  "writerows Ignore fieldnames records = Inr (map (\<lambda>r. map (cell r) fieldnames) records)"
  by (induction records) (simp_all add: dict_to_list_def cell_def)

lemma write_csv_ignore:
  "write_csv Ignore fieldnames records =
     Inr (map JStr fieldnames # map (\<lambda>r. map (cell r) fieldnames) records)"
  by (simp add: write_csv_def writeheader_row writerows_ignore)

lemma normalize_samples_Inr:
  "normalize_samples samples = Inr normalized \<Longrightarrow>
     list_all2 (\<lambda>s out. normalize_sample s = Inr out) samples normalized"
  by (induction samples arbitrary: normalized) (auto split: sum.splits)

lemma normalize_samples_total:
  assumes "\<forall>s \<in> set samples. tests_well_formed s"
  shows "\<exists>normalized. normalize_samples samples = Inr normalized"
  using assms
proof (induction samples)
  case Nil then show ?case by simp
next
  case (Cons s ss)
  then obtain out outs where "normalize_sample s = Inr out" "normalize_samples ss = Inr outs"
    using normalize_sample_total [of s] by auto
  then show ?case by simp
qed

lemma before_result_cong:
  assumes "map_of a = map_of b"
  shows "map_of (before_result a) = map_of (before_result b)"
proof -
  have 1: "map_of (add_missing_defaults_inplace a needed_keys_with_defaults) =
           map_of (add_missing_defaults_inplace b needed_keys_with_defaults)"
    by (rule ext) (simp add: map_of_add_missing assms split: option.splits)
  have 2: "map_of (set_id x) = map_of (set_id y)" if "map_of x = map_of y" for x y
    by (rule ext) (simp add: map_of_set_id that split: option.splits)
  have 3: "map_of (set_sub_administrative_area_id x) = map_of (set_sub_administrative_area_id y)"
    if "map_of x = map_of y" for x y
    by (rule ext) (simp add: map_of_set_sub that split: option.splits json.splits)
  show ?thesis unfolding before_result_def by (intro 3 2 1)
qed

lemma set_result_cong:
  assumes "map_of a = map_of b"
  shows "rel_sum (=) (\<lambda>x y. map_of x = map_of y) (set_result a) (set_result b)"
  using assms
  by (auto simp: set_result_def map_of_setitem split: option.splits sum.splits list.splits)

lemma normalize_sample_cong:
  assumes "map_of a = map_of b"
  shows "rel_sum (=) (\<lambda>x y. map_of x = map_of y) (normalize_sample a) (normalize_sample b)"
  unfolding normalize_sample_split
  by (intro set_result_cong before_result_cong assms)

lemma cell_canonical:
  assumes "normalize_sample s = Inr out" and "key \<in> set sample_fieldnames"
  shows "map_of out key = Some (cell out key)"
proof -
  have "map_of (before_result s) key \<noteq> None" using assms(2) by (rule before_result_canonical)
  then have "map_of out key \<noteq> None"
    using assms(1) set_result_other [of "before_result s" out key]
      set_result_sets_result [of "before_result s" out]
    by (cases "key = ''result''") (auto simp: normalize_sample_split)
  then show ?thesis by (auto simp: cell_def)
qed

text \<open>
  Claim C4. Normalizing N well-formed sample records and writing them gives a table of
  N+1 rows: the header, which is the seven column names in their declared order, and
  one row per record holding the record's value under each of the seven columns in that
  order. The table is the same when the keys of the input records come in another
  order, and fields outside the column list (here \<^verbatim>\<open>_id\<close>, \<^verbatim>\<open>tests\<close>, or anything else)
  raise no error and appear in no row. This is the table the sample stage of the script
  stores as \<^verbatim>\<open>sample.csv\<close>. A row is one \<^verbatim>\<open>writerow\<close> of the csv writer.
\<close>

theorem normalize_then_tabulate_samples:
  assumes wf: "\<forall>s \<in> set samples. tests_well_formed s"
  shows "\<exists>normalized table.
           normalize_samples samples = Inr normalized
         \<and> write_csv Ignore sample_fieldnames normalized = Inr table
         \<and> length table = length samples + 1
         \<and> hd table = map JStr sample_fieldnames
         \<and> tl table = map (\<lambda>r. map (cell r) sample_fieldnames) normalized
         \<and> (\<forall>r \<in> set normalized. \<forall>key \<in> set sample_fieldnames. map_of r key = Some (cell r key))
         \<and> (\<forall>reordered. list_all2 same_fields samples reordered \<longrightarrow>
               (\<exists>normalized'. normalize_samples reordered = Inr normalized'
                   \<and> write_csv Ignore sample_fieldnames normalized' = Inr table))
         \<and> (sample_ndjson inp = Parsed samples \<longrightarrow>
               fst (process_samples py_str inp s0) = Finished
             \<and> sample_csv (snd (process_samples py_str inp s0)) = Some table)"
proof -
  from normalize_samples_total [OF wf] obtain normalized
    where n: "normalize_samples samples = Inr normalized" by blast
  then have l2: "list_all2 (\<lambda>s out. normalize_sample s = Inr out) samples normalized"
    by (rule normalize_samples_Inr)
  define table where "table = map JStr sample_fieldnames # map (\<lambda>r. map (cell r) sample_fieldnames) normalized"
  have w: "write_csv Ignore sample_fieldnames normalized = Inr table"
    by (simp add: write_csv_ignore table_def)
  have len: "length table = length samples + 1"
    using l2 by (simp add: table_def list_all2_lengthD)
  have cells: "\<forall>r \<in> set normalized. \<forall>key \<in> set sample_fieldnames. map_of r key = Some (cell r key)"
  proof (intro ballI)
    fix r key assume "r \<in> set normalized" "key \<in> set sample_fieldnames"
    then obtain s where "normalize_sample s = Inr r"
      using l2 by (auto simp: list_all2_conv_all_nth in_set_conv_nth)
    then show "map_of r key = Some (cell r key)"
      using \<open>key \<in> set sample_fieldnames\<close> by (rule cell_canonical)
  qed
  have order: "\<exists>normalized'. normalize_samples reordered = Inr normalized'
                   \<and> write_csv Ignore sample_fieldnames normalized' = Inr table"
    if "list_all2 same_fields samples reordered" for reordered
    using that l2 unfolding table_def
  proof (induction samples reordered arbitrary: normalized rule: list_all2_induct)
    case Nil
    then show ?case by (simp add: write_csv_ignore)
  next
    case (Cons a as b bs)
    from Cons.prems obtain out outs where no: "normalized = out # outs"
      and a: "normalize_sample a = Inr out"
      and as: "list_all2 (\<lambda>s out. normalize_sample s = Inr out) as outs"
      by (auto simp: list_all2_Cons1)
    from Cons.hyps(1) have "map_of a = map_of b" by (rule same_fields_map_of)
    from normalize_sample_cong [OF this] a obtain out'
      where b: "normalize_sample b = Inr out'" and eq: "map_of out = map_of out'"
      by (cases "normalize_sample b") auto
    from Cons.IH [OF as] obtain outs' where bs: "normalize_samples bs = Inr outs'"
      and t: "write_csv Ignore sample_fieldnames outs' =
               Inr (map JStr sample_fieldnames # map (\<lambda>r. map (cell r) sample_fieldnames) outs)"
      by blast
    have "map (cell out') sample_fieldnames = map (cell out) sample_fieldnames"
      by (simp add: cell_def eq)
    with b bs t show ?case
      by (simp add: no write_csv_ignore)
  qed
  have stage: "fst (process_samples py_str inp s0) = Finished
             \<and> sample_csv (snd (process_samples py_str inp s0)) = Some table"
    if "sample_ndjson inp = Parsed samples"
    using that n w by (simp add: process_samples_def load_def Let_def)
  from n w len cells order stage show ?thesis
    by (intro exI [of _ normalized] exI [of _ table]) (simp add: table_def)
qed

theorem normalize_then_tabulate_samples_witness:
  "list_all tests_well_formed
     [[(''_id'', JStr ''s1''), (''species'', JStr ''deer''), (''note'', JInt 1)],
      [(''sex'', JStr ''F''), (''tests'', JList [])]]
   \<and> list_all2 same_fields
        [[(''_id'', JStr ''s1''), (''species'', JStr ''deer''), (''note'', JInt 1)],
         [(''sex'', JStr ''F''), (''tests'', JList [])]]
        [[(''note'', JInt 1), (''species'', JStr ''deer''), (''_id'', JStr ''s1'')],
         [(''tests'', JList []), (''sex'', JStr ''F'')]]
   \<and> (\<exists>normalized normalized' table.
         normalize_samples
           [[(''_id'', JStr ''s1''), (''species'', JStr ''deer''), (''note'', JInt 1)],
            [(''sex'', JStr ''F''), (''tests'', JList [])]] = Inr normalized
       \<and> write_csv Ignore sample_fieldnames normalized = Inr table
       \<and> length table = 3
       \<and> hd table = map JStr sample_fieldnames
       \<and> normalize_samples
           [[(''note'', JInt 1), (''species'', JStr ''deer''), (''_id'', JStr ''s1'')],
            [(''tests'', JList []), (''sex'', JStr ''F'')]] = Inr normalized'
       \<and> write_csv Ignore sample_fieldnames normalized' = Inr table)"
proof -
  let ?a = "[[(''_id'', JStr ''s1''), (''species'', JStr ''deer''), (''note'', JInt 1)],
             [(''sex'', JStr ''F''), (''tests'', JList [])]]"
  let ?b = "[[(''note'', JInt 1), (''species'', JStr ''deer''), (''_id'', JStr ''s1'')],
             [(''tests'', JList []), (''sex'', JStr ''F'')]]"
  have wf: "\<forall>s \<in> set ?a. tests_well_formed s"
    by (simp add: tests_well_formed_def)
  have sf: "list_all2 same_fields ?a ?b"
    by (auto simp: same_fields_def)
  from normalize_then_tabulate_samples [OF wf, of "\<lparr>params_json = Absent, sample_ndjson = Absent,
        sub_administrative_area_ndjson = Absent, date_for_report = [], date_for_log = []\<rparr>"
        "\<lambda>v. []"
        "\<lparr>info_html = [], execution_log = [], attachments_json = Absent, params_csv = None,
          sample_csv = None, sub_administrative_area_csv = None, prevalence_xlsx = None\<rparr>"]
  obtain normalized table where
      "normalize_samples ?a = Inr normalized"
      "write_csv Ignore sample_fieldnames normalized = Inr table"
      "length table = length ?a + 1"
      "hd table = map JStr sample_fieldnames"
      "\<forall>reordered. list_all2 same_fields ?a reordered \<longrightarrow>
               (\<exists>normalized'. normalize_samples reordered = Inr normalized'
                   \<and> write_csv Ignore sample_fieldnames normalized' = Inr table)"
    by blast
  moreover have "list_all tests_well_formed ?a"
    using wf by (simp only: list_all_iff)
  ultimately show ?thesis using sf by (auto simp del: normalize_samples.simps)
qed

section \<open>The input script as a whole\<close>

lemma and_then_simps:
  "and_then (Finished, s) f = f s"
  "and_then (SystemExit n, s) f = (SystemExit n, s)"
  "and_then (Uncaught e, s) f = (Uncaught e, s)"
  by (simp_all add: and_then_def)

lemma setup_file_structure_eq:
  "setup_file_structure s0 =
     (Finished, s0\<lparr>attachments_json := Parsed (JList initial_attachments)\<rparr>)"
  by (simp add: setup_file_structure_def add_item_to_json_file_list_def load_def
        initial_attachments_def)

lemma initiate_eq:
  "and_then (setup_logging s) (initiate_model_log inp) =
     (Finished, s\<lparr>info_html := report_header inp, execution_log := log_header inp\<rparr>)"
  by (simp add: setup_logging_def initiate_model_log_def and_then_def model_log_html_def
        logging_info_def report_header_def log_header_def)

lemma input_processing_eq:
  "input_processing py_str inp s0 =
     handle_uncaught_exception
       (and_then
          (and_then
             (process_parameters py_str inp
                (s0\<lparr>attachments_json := Parsed (JList initial_attachments),
                    info_html := report_header inp, execution_log := log_header inp\<rparr>))
             (process_samples py_str inp))
          (process_sub_administrative_areas inp))"
  by (simp add: input_processing_def setup_file_structure_eq initiate_eq and_then_simps)

lemma no_error_in_header: "error_entries (report_header inp) = []"
  by (simp add: error_entries_def report_header_def)

text \<open>
  Claim C5. When \<^verbatim>\<open>params.json\<close> is missing (or does not parse) the input script ends by
  \<^verbatim>\<open>sys.exit(1)\<close>: none of the three tables has been written, the narrative report is
  its three opening lines followed by one \<^verbatim>\<open>ERROR\<close> heading and its message, so it holds
  exactly one error entry, and the last line of the log is the error record written
  before the exit.
\<close>

theorem missing_params_halts_before_outputs:
  assumes "params_json inp = Absent \<or> params_json inp = Unparseable"
  shows "\<exists>s. input_processing py_str inp s0 = (SystemExit 1, s)
           \<and> exit_status (fst (input_processing py_str inp s0)) \<noteq> 0
           \<and> params_csv s = params_csv s0
           \<and> sample_csv s = sample_csv s0
           \<and> sub_administrative_area_csv s = sub_administrative_area_csv s0
           \<and> info_html s = report_header inp @
                 [''<h4>ERROR</h4>'', ''<p>Parameters (params.json) file not found.</p>'']
           \<and> length (error_entries (info_html s)) = 1
           \<and> execution_log s = log_header inp @ [(ERROR, ''params.json File does not exist.'')]"
proof -
  from assms obtain e where l: "load (params_json inp) = Inl e"
    by (auto simp: load_def)
  have len: "length (error_entries (report_header inp @
                 [''<h4>ERROR</h4>'', ''<p>Parameters (params.json) file not found.</p>''])) = 1"
    using no_error_in_header [of inp] by (simp add: error_entries_def)
  show ?thesis
    using len
    by (simp add: input_processing_eq process_parameters_def l and_then_simps
          handle_uncaught_exception_def model_log_html_def logging_error_def)
qed

theorem missing_params_halts_before_outputs_witness:
  "params_json \<lparr>params_json = Absent, sample_ndjson = Parsed [],
       sub_administrative_area_ndjson = Parsed [], date_for_report = ''2025-01-01 00:00:00'',
       date_for_log = ''2025-01-01 00:00:00''\<rparr> = Absent
   \<and> fst (input_processing (\<lambda>v. [])
        \<lparr>params_json = Absent, sample_ndjson = Parsed [],
          sub_administrative_area_ndjson = Parsed [], date_for_report = ''2025-01-01 00:00:00'',
          date_for_log = ''2025-01-01 00:00:00''\<rparr> empty_fs) = SystemExit 1
   \<and> params_csv (snd (input_processing (\<lambda>v. [])
        \<lparr>params_json = Absent, sample_ndjson = Parsed [],
          sub_administrative_area_ndjson = Parsed [], date_for_report = ''2025-01-01 00:00:00'',
          date_for_log = ''2025-01-01 00:00:00''\<rparr> empty_fs)) = None
   \<and> length (error_entries (info_html (snd (input_processing (\<lambda>v. [])
        \<lparr>params_json = Absent, sample_ndjson = Parsed [],
          sub_administrative_area_ndjson = Parsed [], date_for_report = ''2025-01-01 00:00:00'',
          date_for_log = ''2025-01-01 00:00:00''\<rparr> empty_fs)))) = 1"
proof -
  let ?inp = "\<lparr>params_json = Absent, sample_ndjson = Parsed [],
          sub_administrative_area_ndjson = Parsed [], date_for_report = ''2025-01-01 00:00:00'',
          date_for_log = ''2025-01-01 00:00:00''\<rparr>"
  have h: "params_json ?inp = Absent \<or> params_json ?inp = Unparseable" by simp
  have z: "params_csv empty_fs = None" by (simp add: empty_fs_def)
  from missing_params_halts_before_outputs [OF h, of "\<lambda>v. []" empty_fs] z show ?thesis by auto
qed

text \<open>
  Claim C9. When \<^verbatim>\<open>params.json\<close> parses but the path
  \<^verbatim>\<open>['_provider']['_administrative_area']['administrative_area']\<close> cannot be followed, the
  script dies of the \<^verbatim>\<open>KeyError\<close> or \<^verbatim>\<open>TypeError\<close> of the subscript: the report holds
  its three opening lines and no error entry, no table has been written, and the log ends
  with the record of the uncaught exception right after ``Parameter file loaded
  successfully'', so nothing of the sample stage has run.
\<close>

theorem missing_provider_is_uncaught:
  assumes "params_json inp = Parsed params" and "provider_admin_area_of params = Inl e"
  shows "\<exists>s. input_processing py_str inp s0 = (Uncaught e, s)
           \<and> (e = KeyError \<or> e = TypeError)
           \<and> info_html s = report_header inp
           \<and> error_entries (info_html s) = []
           \<and> params_csv s = params_csv s0
           \<and> sample_csv s = sample_csv s0
           \<and> sub_administrative_area_csv s = sub_administrative_area_csv s0
           \<and> execution_log s = log_header inp @
                 [(INFO, ''Parameter file loaded successfully''), (ERROR, ''Uncaught exception:'')]"
proof -
  have g: "e' = KeyError \<or> e' = TypeError" if "py_getitem v k = Inl e'" for v k e'
    using that by (cases v) (auto split: option.splits)
  have e: "e = KeyError \<or> e = TypeError"
    using assms(2) g unfolding provider_admin_area_of_def
    by (auto split: sum.splits)
  show ?thesis
    using e no_error_in_header [of inp]
    by (simp add: input_processing_eq process_parameters_def assms load_def and_then_simps
          handle_uncaught_exception_def logging_info_def logging_error_def)
qed

theorem missing_provider_is_uncaught_witness:
  "provider_admin_area_of (JObj [(''season_year'', JInt 2024)]) = Inl KeyError
   \<and> fst (input_processing (\<lambda>v. [])
        \<lparr>params_json = Parsed (JObj [(''season_year'', JInt 2024)]), sample_ndjson = Parsed [],
          sub_administrative_area_ndjson = Parsed [], date_for_report = ''2025-01-01 00:00:00'',
          date_for_log = ''2025-01-01 00:00:00''\<rparr> empty_fs) = Uncaught KeyError
   \<and> params_csv (snd (input_processing (\<lambda>v. [])
        \<lparr>params_json = Parsed (JObj [(''season_year'', JInt 2024)]), sample_ndjson = Parsed [],
          sub_administrative_area_ndjson = Parsed [], date_for_report = ''2025-01-01 00:00:00'',
          date_for_log = ''2025-01-01 00:00:00''\<rparr> empty_fs)) = None
   \<and> error_entries (info_html (snd (input_processing (\<lambda>v. [])
        \<lparr>params_json = Parsed (JObj [(''season_year'', JInt 2024)]), sample_ndjson = Parsed [],
          sub_administrative_area_ndjson = Parsed [], date_for_report = ''2025-01-01 00:00:00'',
          date_for_log = ''2025-01-01 00:00:00''\<rparr> empty_fs))) = []"
proof -
  let ?p = "JObj [(''season_year'', JInt 2024)]"
  let ?inp = "\<lparr>params_json = Parsed ?p, sample_ndjson = Parsed [],
          sub_administrative_area_ndjson = Parsed [], date_for_report = ''2025-01-01 00:00:00'',
          date_for_log = ''2025-01-01 00:00:00''\<rparr>"
  have h1: "params_json ?inp = Parsed ?p" by simp
  have h2: "provider_admin_area_of ?p = Inl KeyError" by (simp add: provider_admin_area_of_def)
  have z: "params_csv empty_fs = None" by (simp add: empty_fs_def)
  from missing_provider_is_uncaught [OF h1 h2, of "\<lambda>v. []" empty_fs] h2 z show ?thesis by auto
qed

section \<open>The parameter table\<close>

lemma row_of_own_keys:
  assumes "distinct (map fst d)"
  shows "map (cell d) (dict_keys d) = map snd d"
proof -
  have "map_of d (fst kv) = Some (snd kv)" if "kv \<in> set d" for kv
    using that assms by simp
  then have "cell d (fst kv) = snd kv" if "kv \<in> set d" for kv
    using that by (simp add: cell_def)
  then show ?thesis by (simp add: dict_keys_def)
qed

lemma provider_present:
  assumes "provider_admin_area_of (JObj d) = Inr area"
  shows "dict_contains d ''_provider''"
  using assms by (auto simp: provider_admin_area_of_def dict_contains_def split: option.splits)

lemma delete_as_filter: "AList.delete k d = filter (\<lambda>kv. fst kv \<noteq> k) d"
  by (induction d) auto

text \<open>
  Claim C6. For a parameter set that carries the provider path, the table written as
  \<^verbatim>\<open>params.csv\<close> has a header and a single row: the keys of the parameters other than
  \<^verbatim>\<open>_provider\<close>, in their order, and under them their values, unchanged. The extracted
  administrative area is in no cell; when it is a string it goes into the report line
  \<^verbatim>\<open>Provider area: ...\<close>, which is written after the table. The parameter stage
  writes no other table.
\<close>

theorem provider_removed_before_params_table:
  assumes "params_json inp = Parsed (JObj d)"
    and "distinct (map fst d)"
    and "provider_admin_area_of (JObj d) = Inr area"
  shows "params_csv (snd (process_parameters py_str inp s0)) =
           Some [map JStr (filter (\<lambda>k. k \<noteq> ''_provider'') (map fst d)),
                 map snd (filter (\<lambda>kv. fst kv \<noteq> ''_provider'') d)]
       \<and> sample_csv (snd (process_parameters py_str inp s0)) = sample_csv s0
       \<and> sub_administrative_area_csv (snd (process_parameters py_str inp s0)) =
           sub_administrative_area_csv s0
       \<and> (\<forall>a. area = JStr a \<longrightarrow>
             fst (process_parameters py_str inp s0) = Finished
           \<and> info_html (snd (process_parameters py_str inp s0)) =
               info_html s0 @
               [''<p>Provider area: '' @ a @ ''</p>'',
                ''<h4>User provided parameters:</h4>'',
                ''<p><ul>'' @
                  dict_to_html_helper py_str ''<ul>'' ''</ul>''
                    (filter (\<lambda>kv. fst kv \<noteq> ''_provider'') d) @
                ''</ul></p>''])"
proof -
  let ?d' = "filter (\<lambda>kv. fst kv \<noteq> ''_provider'') d"
  have del: "dict_delitem d ''_provider'' = Inr ?d'"
    using provider_present [OF assms(3)] by (simp add: dict_delitem_def delete_as_filter)
  have dist: "distinct (map fst ?d')" using assms(2) by (simp add: distinct_map_filter)
  have keys: "dict_keys ?d' = filter (\<lambda>k. k \<noteq> ''_provider'') (map fst d)"
    by (simp add: dict_keys_def filter_map comp_def)
  have table: "write_csv Ignore (dict_keys ?d') [?d'] =
     Inr [map JStr (filter (\<lambda>k. k \<noteq> ''_provider'') (map fst d)), map snd ?d']"
    by (simp add: write_csv_ignore row_of_own_keys [OF dist] keys [symmetric])
  show ?thesis
    by (cases area)
       (simp_all add: process_parameters_def assms(1,3) load_def del table str_plus_def
          dict_to_html_list_def model_log_html_def logging_info_def Let_def)
qed

theorem provider_removed_before_params_table_witness:
  "provider_admin_area_of
     (JObj [(''season_year'', JInt 2024),
            (''_provider'', JObj [(''_administrative_area'', JObj [(''administrative_area'', JStr ''New York'')])]),
            (''species'', JStr ''deer'')]) = Inr (JStr ''New York'')
   \<and> process_parameters (\<lambda>v. ''?'')
        \<lparr>params_json = Parsed
           (JObj [(''season_year'', JInt 2024),
                  (''_provider'', JObj [(''_administrative_area'', JObj [(''administrative_area'', JStr ''New York'')])]),
                  (''species'', JStr ''deer'')]),
         sample_ndjson = Absent, sub_administrative_area_ndjson = Absent,
         date_for_report = [], date_for_log = []\<rparr> empty_fs
     = (Finished,
        empty_fs\<lparr>execution_log := [(INFO, ''Parameter file loaded successfully'')],
                 params_csv := Some [[JStr ''season_year'', JStr ''species''], [JInt 2024, JStr ''deer'']],
                 info_html := [''<p>Provider area: New York</p>'',
                               ''<h4>User provided parameters:</h4>'',
                               ''<p><ul><li>season_year: ?</li><li>species: ?</li></ul></p>'']\<rparr>)"
proof -
  let ?d = "[(''season_year'', JInt 2024),
            (''_provider'', JObj [(''_administrative_area'', JObj [(''administrative_area'', JStr ''New York'')])]),
            (''species'', JStr ''deer'')]"
  let ?inp = "\<lparr>params_json = Parsed (JObj ?d),
         sample_ndjson = Absent, sub_administrative_area_ndjson = Absent,
         date_for_report = [], date_for_log = []\<rparr>"
  have h1: "params_json ?inp = Parsed (JObj ?d)" by simp
  have h2: "distinct (map fst ?d)" by simp
  have h3: "provider_admin_area_of (JObj ?d) = Inr (JStr ''New York'')"
    by (simp add: provider_admin_area_of_def)
  note t = provider_removed_before_params_table [OF h1 h2 h3, of "\<lambda>v. ''?''" empty_fs]
  have rest: "execution_log (snd (process_parameters (\<lambda>v. ''?'') ?inp empty_fs)) =
                [(INFO, ''Parameter file loaded successfully'')]
            \<and> attachments_json (snd (process_parameters (\<lambda>v. ''?'') ?inp empty_fs)) = Absent
            \<and> prevalence_xlsx (snd (process_parameters (\<lambda>v. ''?'') ?inp empty_fs)) = None"
    by (simp add: process_parameters_def load_def provider_admin_area_of_def dict_delitem_def
          dict_contains_def write_csv_ignore str_plus_def dict_to_html_list_def
          model_log_html_def logging_info_def empty_fs_def)
  from t rest h3 show ?thesis
    by (cases "process_parameters (\<lambda>v. ''?'') ?inp empty_fs")
       (simp add: empty_fs_def)
qed

section \<open>The output script\<close>
















end
